theory Spec2Isabelle
  imports Main "HOL-Library.Word" "HOL-Library.DAList" "HOL-Library.List_Lexorder"
    "HOL-Library.Char_ord"
begin

unbundle bit_operations_syntax

section \<open>The sqlite3-backed block store (package sqlite3bs)\<close>

text \<open>
  The development embeds \<^verbatim>\<open>src/sqlite3/blockstore.go\<close>.  The store keeps one table
  \<^verbatim>\<open>blocks (mh TEXT NOT NULL PRIMARY KEY, bytes BLOB NOT NULL)\<close>; every operation
  derives the row key from the multihash of a content identifier with
  \<^verbatim>\<open>keyFromCid\<close> and executes one prepared statement.

  The Go file calls four collaborators whose code is outside the repository: the
  \<^verbatim>\<open>encoding/base64\<close> codec, the \<^verbatim>\<open>go-cid\<close> and \<^verbatim>\<open>go-block-format\<close> value types,
  and the SQL engine behind \<^verbatim>\<open>database/sql\<close>.  Each is modelled below, in a subsection
  of its own, by what the called function computes; the functions of the Go file
  itself follow in the order of the file.
\<close>

subsection \<open>Bytes and the base64 codec \<^verbatim>\<open>base64.RawStdEncoding\<close>\<close>

type_synonym byte = "8 word"

text \<open>
  \<^verbatim>\<open>RawStdEncoding\<close> is the standard alphabet without padding, in the decoder's default
  (non-strict) mode.  \<^verbatim>\<open>encodeStd\<close> is the alphabet; \<^verbatim>\<open>decodeMap\<close> is the 256-entry table
  that \<^verbatim>\<open>NewEncoding\<close> fills with \<^verbatim>\<open>0xFF\<close> and then overwrites at the 64 alphabet
  characters:
  \<^verbatim>\<open>for i := 0; i < len(encoder); i++ { e.decodeMap[encoder[i]] = byte(i) }\<close>.
\<close>

definition encodeStd :: string where
  "encodeStd = ''ABCDEFGHIJKLMNOPQRSTUVWXYZabcdefghijklmnopqrstuvwxyz0123456789+/''"

definition decodeMap :: "char \<Rightarrow> byte" where
  "decodeMap =
     fold (\<lambda>i m. m(encodeStd ! i := of_nat i)) [0..<length encodeStd] (\<lambda>_. 0xFF)"

text \<open>
  \<^verbatim>\<open>enc.encode[v&0x3F]\<close>: the index is masked to six bits, so the read of the 64-entry
  array is always in range.
\<close>

definition encode_char :: "64 word \<Rightarrow> char" where
  "encode_char v = encodeStd ! unat (v AND 0x3F)"

text \<open>
  \<^verbatim>\<open>Encoding.Encode\<close> without padding: three source bytes are packed into \<^verbatim>\<open>val\<close> and
  give four characters; a remainder of two bytes gives three characters and a
  remainder of one byte gives two.
\<close>

fun EncodeToString :: "byte list \<Rightarrow> string" where
  "EncodeToString (b0 # b1 # b2 # src) =
     (let val = push_bit 16 (ucast b0) OR push_bit 8 (ucast b1) OR ucast b2
      in encode_char (drop_bit 18 val) # encode_char (drop_bit 12 val) #
         encode_char (drop_bit 6 val) # encode_char val # EncodeToString src)"
| "EncodeToString [b0, b1] =
     (let val = push_bit 16 (ucast b0) OR push_bit 8 (ucast b1)
      in [encode_char (drop_bit 18 val), encode_char (drop_bit 12 val),
          encode_char (drop_bit 6 val)])"
| "EncodeToString [b0] =
     (let val = push_bit 16 (ucast b0)
      in [encode_char (drop_bit 18 val), encode_char (drop_bit 12 val)])"
| "EncodeToString [] = []"

text \<open>
  The decoder reports every failure as a \<^verbatim>\<open>CorruptInputError\<close>.  The error carries the
  byte offset of the failure, which the store only prints; the offset is not modelled.
\<close>

datatype b64_error = CorruptInputError

definition is_newline :: "char \<Rightarrow> bool" where
  "is_newline c = (c = CHR 0x0A \<or> c = CHR 0x0D)"

text \<open>
  The tail of \<^verbatim>\<open>decodeQuantum\<close>: the sextets read so far (\<^verbatim>\<open>dlen\<close> of them, the rest of
  the zero-initialised \<^verbatim>\<open>dbuf\<close> being 0) are joined into \<^verbatim>\<open>val\<close>, and \<^verbatim>\<open>dlen - 1\<close> bytes
  are written.  In non-strict mode the bits of \<^verbatim>\<open>val\<close> below the last written byte are
  dropped without a check.
\<close>

definition quantumVal :: "byte \<Rightarrow> byte \<Rightarrow> byte \<Rightarrow> byte \<Rightarrow> 64 word" where
  "quantumVal d0 d1 d2 d3 =
     push_bit 18 (ucast d0) OR push_bit 12 (ucast d1) OR push_bit 6 (ucast d2) OR ucast d3"

definition quantumBytes :: "byte list \<Rightarrow> byte list" where
  "quantumBytes dbuf =
     (let d = dbuf @ replicate (4 - length dbuf) 0;
          val = quantumVal (d ! 0) (d ! 1) (d ! 2) (d ! 3)
      in take (length dbuf - 1)
           [ucast (drop_bit 16 val), ucast (drop_bit 8 val), ucast val])"

text \<open>
  \<^verbatim>\<open>decodeQuantum\<close> with \<^verbatim>\<open>padChar = NoPadding\<close>.  The list \<open>dbuf\<close> holds the \<^verbatim>\<open>j\<close> sextets
  read so far; the loop \<^verbatim>\<open>for j := 0; j < len(dbuf); j++\<close> ends when it holds four.  At
  the end of the input, \<^verbatim>\<open>j == 0\<close> returns no bytes, \<^verbatim>\<open>j == 1\<close> is corrupt, and two or
  three sextets are converted.  A character of the alphabet is stored; \<^verbatim>\<open>'\n'\<close> and
  \<^verbatim>\<open>'\r'\<close> are skipped (\<^verbatim>\<open>j--; continue\<close>); any other character is corrupt, because no
  character equals the padding character of an unpadded encoding.  The result is the
  bytes written and the unread input.
\<close>

fun decodeQuantum :: "byte list \<Rightarrow> string \<Rightarrow> b64_error + (byte list \<times> string)" where
  "decodeQuantum dbuf [] =
     (if length dbuf = 0 then Inr ([], [])
      else if length dbuf = 1 then Inl CorruptInputError
      else Inr (quantumBytes dbuf, []))"
| "decodeQuantum dbuf (c # src) =
     (if length dbuf = 4 then Inr (quantumBytes dbuf, c # src)
      else if decodeMap c \<noteq> 0xFF then decodeQuantum (dbuf @ [decodeMap c]) src
      else if is_newline c then decodeQuantum dbuf src
      else Inl CorruptInputError)"

lemma decodeQuantum_rest_le:
  "decodeQuantum dbuf src = Inr (out, rest) \<Longrightarrow> length rest \<le> length src"
  by (induction dbuf src rule: decodeQuantum.induct) (auto split: if_splits)

lemma decodeQuantum_rest_less:
  "src \<noteq> [] \<Longrightarrow> decodeQuantum [] src = Inr (out, rest) \<Longrightarrow> length rest < length src"
  by (cases src) (auto split: if_splits dest: decodeQuantum_rest_le)

text \<open>
  \<^verbatim>\<open>Encoding.Decode\<close>: quanta are decoded until the input is used up, and the first
  error ends the loop.  (The 8- and 4-character fast paths of the Go function decode
  the same quanta and fall back to \<^verbatim>\<open>decodeQuantum\<close> on any character outside the
  alphabet.)  \<^verbatim>\<open>DecodeString\<close> returns the bytes written so far together with the error;
  the store reads them only when the error is \<^verbatim>\<open>nil\<close>, so the model returns either the
  error or the bytes.
\<close>

function DecodeString :: "string \<Rightarrow> b64_error + byte list" where
  "DecodeString src =
     (if src = [] then Inr []
      else case decodeQuantum [] src of
             Inl err \<Rightarrow> Inl err
           | Inr (out, rest) \<Rightarrow>
               (case DecodeString rest of
                  Inl err \<Rightarrow> Inl err
                | Inr outs \<Rightarrow> Inr (out @ outs)))"
  by pat_completeness auto
termination
proof (relation "measure length")
  show "wf (measure length)" by simp
next
  fix src :: string and x2 :: "byte list \<times> string" and out rest
  assume "src \<noteq> []" and "decodeQuantum [] src = Inr x2" and "(out, rest) = x2"
  then have "length rest < length src"
    using decodeQuantum_rest_less [of src out rest] by blast
  then show "(rest, src) \<in> measure length" by simp
qed

declare DecodeString.simps [simp del]

subsection \<open>Notions for the statements about the codec\<close>

text \<open>The six-bit group that \<^verbatim>\<open>encode_char\<close> turns into a character.\<close>

definition sextet :: "64 word \<Rightarrow> byte" where
  "sextet v = ucast (v AND 0x3F)"

text \<open>
  A character that makes the decoder fail where it stands: it is outside the alphabet
  and is not a line break.
\<close>

definition corrupt_char :: "char \<Rightarrow> bool" where
  "corrupt_char c = (decodeMap c = 0xFF \<and> \<not> is_newline c)"

text \<open>The number of alphabet characters of a string.\<close>

definition sextet_count :: "string \<Rightarrow> nat" where
  "sextet_count s = length (filter (\<lambda>c. decodeMap c \<noteq> 0xFF) s)"

text \<open>
  The decoder in the middle of a quantum: the sextets of \<open>dbuf\<close> are read, the
  quantum is completed from \<open>src\<close>, and the rest is decoded.
\<close>

definition decode_from :: "byte list \<Rightarrow> string \<Rightarrow> b64_error + byte list" where
  "decode_from dbuf src =
     (case decodeQuantum dbuf src of
        Inl err \<Rightarrow> Inl err
      | Inr (out, rest) \<Rightarrow>
          (case DecodeString rest of Inl err \<Rightarrow> Inl err | Inr outs \<Rightarrow> Inr (out @ outs)))"

subsection \<open>Content identifiers and blocks (\<^verbatim>\<open>go-cid\<close>, \<^verbatim>\<open>go-block-format\<close>)\<close>

text \<open>
  A \<^verbatim>\<open>cid.Cid\<close> is read by the store through \<^verbatim>\<open>Hash()\<close> only and is built by
  \<^verbatim>\<open>cid.NewCidV1(cid.Raw, mh)\<close> only.  It is modelled by its three components: the
  version, the codec (\<^verbatim>\<open>Type()\<close>) and the multihash bytes, which \<^verbatim>\<open>NewCidV1\<close> stores
  without inspecting them.  \<^verbatim>\<open>cid.Raw\<close> is the codec \<^verbatim>\<open>0x55\<close>.
\<close>

record cid =
  Version :: "64 word"
  Codec :: "64 word"
  Hash :: "byte list"

definition Raw :: "64 word" where
  "Raw = 0x55"

definition NewCidV1 :: "64 word \<Rightarrow> byte list \<Rightarrow> cid" where
  "NewCidV1 codecType mhash = \<lparr>Version = 1, Codec = codecType, Hash = mhash\<rparr>"

text \<open>
  A \<^verbatim>\<open>blocks.Block\<close> offers \<^verbatim>\<open>Cid()\<close> and \<^verbatim>\<open>RawData()\<close>.  Nothing ties the two together:
  the store never hashes the payload.  \<^verbatim>\<open>RawData()\<close> is a \<^verbatim>\<open>[]byte\<close>, which can be
  \<^verbatim>\<open>nil\<close>: \<open>None\<close> is the nil slice and \<open>Some d\<close> a slice with the bytes \<open>d\<close>
  (\<open>Some []\<close> is the empty slice that is not nil).
\<close>

record block =
  Cid :: cid
  RawData :: "byte list option"

subsection \<open>Errors\<close>

text \<open>
  \<^verbatim>\<open>fmt.Errorf(format, args..., err)\<close> with a final \<^verbatim>\<open>%w\<close> is kept as a value: the format
  string, the arguments before the wrapped error, and the wrapped error.
  \<^verbatim>\<open>SqliteError\<close> stands for any failure reported by the engine (with its result code),
  \<^verbatim>\<open>ErrNoRows\<close> for \<^verbatim>\<open>sql.ErrNoRows\<close>, \<^verbatim>\<open>ErrNotFound\<close> for \<^verbatim>\<open>blockstore.ErrNotFound\<close>,
  \<^verbatim>\<open>ContextCanceled\<close> for \<^verbatim>\<open>ctx.Err()\<close> of a cancelled context.
\<close>

datatype arg = ArgCid cid | ArgInt int

datatype error =
    ErrNoRows
  | ErrNotFound
  | SqliteError nat
  | ContextCanceled
  | Base64Error b64_error
  | Errorf string "arg list" error

text \<open>
  \<^verbatim>\<open>blocks.NewBlockWithCid\<close> with the package flag \<^verbatim>\<open>u.Debug\<close> at its default \<^verbatim>\<open>false\<close>:
  the block is built from the data and the identifier as they are, and no error is
  returned.  \<^verbatim>\<open>Get\<close> calls it with the bytes that \<^verbatim>\<open>Scan\<close> has read from a column
  that is not null, a slice that is not nil.
\<close>

definition NewBlockWithCid :: "byte list \<Rightarrow> cid \<Rightarrow> block option \<times> error option" where
  "NewBlockWithCid data c = (Some \<lparr>Cid = c, RawData = Some data\<rparr>, None)"

subsection \<open>The engine: the table \<^verbatim>\<open>blocks\<close> and the prepared statements\<close>

text \<open>
  The state of a \<^verbatim>\<open>Blockstore\<close> is the content of its table.  \<^verbatim>\<open>mh\<close> is the primary
  key, so the table is an association list with distinct keys.  The order of the list
  has no meaning: the table is \<^verbatim>\<open>WITHOUT ROWID\<close>, stored by primary key, and a cursor
  returns its rows in the order of their keys (see \<^verbatim>\<open>stmtSelectAll\<close> below).

  The engine can fail on any statement (busy time-out, I/O error, full disk).
  \<open>pending\<close> is the schedule of these outcomes, decided by the environment: its head
  is the outcome of the next statement executed, \<open>None\<close> when the statement
  executes and \<open>Some code\<close> when it fails with that result code and leaves the table
  as it was; an exhausted schedule means that no further statement fails.
\<close>

record Blockstore =
  rows :: "(string, byte list) alist"
  pending :: "nat option list"

definition next_outcome :: "Blockstore \<Rightarrow> nat option \<times> Blockstore" where
  "next_outcome b =
     (case pending b of
        [] \<Rightarrow> (None, b)
      | r # rs \<Rightarrow> (r, b\<lparr>pending := rs\<rparr>))"

text \<open>
  \<^verbatim>\<open>stmtHas\<close>: \<^verbatim>\<open>SELECT EXISTS (SELECT 1 FROM blocks WHERE mh = ?)\<close>, read with
  \<^verbatim>\<open>QueryRow(key).Scan(&ret)\<close>.  The query always has one row.
\<close>

definition query_stmtHas :: "string \<Rightarrow> Blockstore \<Rightarrow> (error + bool) \<times> Blockstore" where
  "query_stmtHas key b =
     (case next_outcome b of
        (Some code, b') \<Rightarrow> (Inl (SqliteError code), b')
      | (None, b') \<Rightarrow> (Inr (DAList.lookup (rows b') key \<noteq> None), b'))"

text \<open>
  \<^verbatim>\<open>stmtGet\<close>: \<^verbatim>\<open>SELECT bytes FROM blocks WHERE mh = ?\<close>; \<^verbatim>\<open>Scan\<close> returns
  \<^verbatim>\<open>sql.ErrNoRows\<close> when no row matches.
\<close>

definition query_stmtGet :: "string \<Rightarrow> Blockstore \<Rightarrow> (error + byte list) \<times> Blockstore" where
  "query_stmtGet key b =
     (case next_outcome b of
        (Some code, b') \<Rightarrow> (Inl (SqliteError code), b')
      | (None, b') \<Rightarrow>
          (case DAList.lookup (rows b') key of
             None \<Rightarrow> (Inl ErrNoRows, b')
           | Some data \<Rightarrow> (Inr data, b')))"

text \<open>\<^verbatim>\<open>stmtGetSize\<close>: \<^verbatim>\<open>SELECT LENGTH(bytes) FROM blocks WHERE mh = ?\<close>.\<close>

definition query_stmtGetSize :: "string \<Rightarrow> Blockstore \<Rightarrow> (error + int) \<times> Blockstore" where
  "query_stmtGetSize key b =
     (case next_outcome b of
        (Some code, b') \<Rightarrow> (Inl (SqliteError code), b')
      | (None, b') \<Rightarrow>
          (case DAList.lookup (rows b') key of
             None \<Rightarrow> (Inl ErrNoRows, b')
           | Some data \<Rightarrow> (Inr (int (length data)), b')))"

text \<open>
  \<^verbatim>\<open>stmtPut\<close>: \<^verbatim>\<open>INSERT OR IGNORE INTO blocks (mh, bytes) VALUES (?, ?)\<close>, executed with
  the key and \<^verbatim>\<open>block.RawData()\<close> as it is.  The driver binds a nil \<^verbatim>\<open>[]byte\<close> as
  \<^verbatim>\<open>NULL\<close> and any other \<^verbatim>\<open>[]byte\<close> as a blob.  The column \<^verbatim>\<open>bytes\<close> is \<^verbatim>\<open>NOT NULL\<close>,
  and \<^verbatim>\<open>OR IGNORE\<close> skips a row that violates a \<^verbatim>\<open>NOT NULL\<close> or a uniqueness
  constraint: with a nil payload, or with a key that is present, the table is left
  as it is and the statement succeeds.
\<close>

definition insert_or_ignore ::
  "string \<Rightarrow> byte list option \<Rightarrow> (string, byte list) alist \<Rightarrow> (string, byte list) alist" where
  "insert_or_ignore key data t =
     (case data of
        None \<Rightarrow> t
      | Some d \<Rightarrow>
          (case DAList.lookup t key of
             None \<Rightarrow> DAList.update key d t
           | Some _ \<Rightarrow> t))"

definition exec_stmtPut ::
  "string \<Rightarrow> byte list option \<Rightarrow> Blockstore \<Rightarrow> error option \<times> Blockstore" where
  "exec_stmtPut key data b =
     (case next_outcome b of
        (Some code, b') \<Rightarrow> (Some (SqliteError code), b')
      | (None, b') \<Rightarrow> (None, b'\<lparr>rows := insert_or_ignore key data (rows b')\<rparr>))"

text \<open>\<^verbatim>\<open>stmtDelete\<close>: \<^verbatim>\<open>DELETE FROM blocks WHERE mh = ?\<close>.\<close>

definition exec_stmtDelete :: "string \<Rightarrow> Blockstore \<Rightarrow> error option \<times> Blockstore" where
  "exec_stmtDelete key b =
     (case next_outcome b of
        (Some code, b') \<Rightarrow> (Some (SqliteError code), b')
      | (None, b') \<Rightarrow> (None, b'\<lparr>rows := DAList.delete key (rows b')\<rparr>))"

text \<open>
  \<^verbatim>\<open>stmtSelectAll\<close>: \<^verbatim>\<open>SELECT mh FROM blocks\<close>, opened with \<^verbatim>\<open>QueryContext(ctx)\<close>.  A
  context that is already cancelled gives \<^verbatim>\<open>ctx.Err()\<close>.  Otherwise \<^verbatim>\<open>QueryContext\<close>
  returns a cursor and no error: the statement runs only when the cursor is stepped,
  so a failure of the engine shows at \<^verbatim>\<open>q.Next()\<close>, which is then false.  The cursor
  is the list of what the successive \<^verbatim>\<open>q.Next(); q.Scan(&mh)\<close> will give:
  \<^item> \<open>Row mh\<close>: \<^verbatim>\<open>q.Next()\<close> is true and \<^verbatim>\<open>q.Scan\<close> reads the key \<open>mh\<close>;
  \<^item> \<open>NextError err\<close>: \<^verbatim>\<open>q.Next()\<close> is false because the engine failed;
  \<^item> \<open>ScanError err\<close>: \<^verbatim>\<open>q.Next()\<close> is true and \<^verbatim>\<open>q.Scan\<close> fails.
  The keys come in key order: the table is stored by its primary key, and the
  comparison of \<^verbatim>\<open>TEXT\<close> values is bytewise, a proper prefix first, which is the
  order of \<open>string\<close>.  Reading a \<^verbatim>\<open>TEXT\<close> column that is not null into a Go string
  does not fail, so the cursor of this query has no \<open>ScanError\<close>.
\<close>

datatype scanned = Row string | NextError error | ScanError error

definition query_stmtSelectAll ::
  "bool \<Rightarrow> Blockstore \<Rightarrow> (error + scanned list) \<times> Blockstore" where
  "query_stmtSelectAll ctx_done b =
     (if ctx_done then (Inl ContextCanceled, b)
      else case next_outcome b of
             (Some code, b') \<Rightarrow> (Inr [NextError (SqliteError code)], b')
           | (None, b') \<Rightarrow>
               (Inr (map Row (sort (map fst (DAList.impl_of (rows b'))))), b'))"

subsection \<open>The operations of \<^verbatim>\<open>blockstore.go\<close>\<close>

definition keyFromCid :: "cid \<Rightarrow> string" where
  "keyFromCid c = EncodeToString (Hash c)"

definition Has :: "cid \<Rightarrow> Blockstore \<Rightarrow> (bool \<times> error option) \<times> Blockstore" where
  "Has c b =
     (case query_stmtHas (keyFromCid c) b of
        (Inl err, b') \<Rightarrow>
          ((False,
            Some (Errorf ''failed to check for existence of CID %s in sqlite3 blockstore: %w''
                    [ArgCid c] err)), b')
      | (Inr ret, b') \<Rightarrow> ((ret, None), b'))"

definition Get :: "cid \<Rightarrow> Blockstore \<Rightarrow> (block option \<times> error option) \<times> Blockstore" where
  "Get c b =
     (case query_stmtGet (keyFromCid c) b of
        (Inl err, b') \<Rightarrow>
          (if err = ErrNoRows then ((None, Some ErrNotFound), b')
           else ((None,
                  Some (Errorf ''failed to get CID %s from sqlite3 blockstore: %w''
                          [ArgCid c] err)), b'))
      | (Inr data, b') \<Rightarrow> (NewBlockWithCid data c, b'))"

definition GetSize :: "cid \<Rightarrow> Blockstore \<Rightarrow> (int \<times> error option) \<times> Blockstore" where
  "GetSize c b =
     (case query_stmtGetSize (keyFromCid c) b of
        (Inl err, b') \<Rightarrow>
          (if err = ErrNoRows then ((- 1, Some ErrNotFound), b')
           else ((- 1,
                  Some (Errorf ''failed to get size of CID %s from sqlite3 blockstore: %w''
                          [ArgCid c] err)), b'))
      | (Inr sz, b') \<Rightarrow> ((sz, None), b'))"

definition Put :: "block \<Rightarrow> Blockstore \<Rightarrow> error option \<times> Blockstore" where
  "Put blk b =
     (case exec_stmtPut (keyFromCid (Cid blk)) (RawData blk) b of
        (Some err, b') \<Rightarrow>
          (Some (Errorf ''failed to put block with CID %s into sqlite3 blockstore: %w''
                   [ArgCid (Cid blk)] err), b')
      | (None, b') \<Rightarrow> (None, b'))"

text \<open>
  The loop of \<^verbatim>\<open>PutMany\<close>, at index \<open>i\<close> of \<open>n\<close> blocks: the first failing \<^verbatim>\<open>Put\<close>
  returns at once.
\<close>

fun PutMany_from :: "nat \<Rightarrow> nat \<Rightarrow> block list \<Rightarrow> Blockstore \<Rightarrow> error option \<times> Blockstore" where
  "PutMany_from i n [] b = (None, b)"
| "PutMany_from i n (blk # blks) b =
     (case Put blk b of
        (Some err, b') \<Rightarrow>
          (Some (Errorf ''failed to put block %d/%d with CID %s into sqlite3 blockstore: %w''
                   [ArgInt (int i), ArgInt (int n), ArgCid (Cid blk)] err), b')
      | (None, b') \<Rightarrow> PutMany_from (Suc i) n blks b')"

definition PutMany :: "block list \<Rightarrow> Blockstore \<Rightarrow> error option \<times> Blockstore" where
  "PutMany blks b = PutMany_from 0 (length blks) blks b"

definition DeleteBlock :: "cid \<Rightarrow> Blockstore \<Rightarrow> error option \<times> Blockstore" where
  "DeleteBlock c b = exec_stmtDelete (keyFromCid c) b"

subsection \<open>\<^verbatim>\<open>AllKeysChan\<close>: the cursor, the goroutine and the channel\<close>

text \<open>
  \<^verbatim>\<open>AllKeysChan\<close> makes the unbuffered channel \<^verbatim>\<open>ret\<close>, opens the cursor \<^verbatim>\<open>q\<close> and starts
  a goroutine.  An enumeration in progress is the state of that goroutine and of what
  it shares with its caller:
  \<^item> \<open>cursor\<close>: the rows that \<^verbatim>\<open>q\<close> has not returned yet;
  \<^item> \<open>pc\<close>: where the goroutine stands: before \<^verbatim>\<open>q.Next()\<close>, before \<^verbatim>\<open>q.Scan(&mh)\<close>,
    inside the send \<^verbatim>\<open>ret <- c\<close>, or returned (the deferred \<^verbatim>\<open>close(ret)\<close> has run);
  \<^item> \<open>received\<close>: the identifiers the consumer has received from \<^verbatim>\<open>ret\<close>, in order;
  \<^item> \<open>logged\<close>: the calls of \<^verbatim>\<open>log.Printf\<close>, as format string and error;
  \<^item> \<open>ctx_done\<close>: whether the context is cancelled (\<^verbatim>\<open>ctx.Err() != nil\<close>).
\<close>

datatype pc = AtNext | AtScan | Sending cid | Closed

record enumeration =
  cursor :: "scanned list"
  pc :: pc
  received :: "cid list"
  logged :: "(string \<times> error) list"
  ctx_done :: bool

text \<open>
  One step of the goroutine on its own; \<open>None\<close> when it has no such step, because it
  has returned or because it is inside \<^verbatim>\<open>ret <- c\<close>: \<^verbatim>\<open>ret\<close> is made by
  \<^verbatim>\<open>make(chan cid.Cid)\<close> without capacity, and the send is a plain statement, not a
  \<^verbatim>\<open>select\<close> with \<^verbatim>\<open>ctx.Done()\<close>, so it completes only when the consumer receives.

  \<^verbatim>\<open>database/sql\<close> closes the cursor of a cancelled context: \<^verbatim>\<open>q.Next()\<close> is then false
  and \<^verbatim>\<open>q.Scan\<close> fails.  The model takes this closing as immediate.  \<^verbatim>\<open>q.Next()\<close> is
  also false at the end of the rows and when the engine fails; the loop then ends,
  \<^verbatim>\<open>q.Err()\<close> is not read and nothing is logged.  After \<^verbatim>\<open>q.Scan\<close>
  the \<^verbatim>\<open>switch\<close> has three cases: \<^verbatim>\<open>err == nil\<close> (the key is decoded, then logged and
  skipped, or sent), \<^verbatim>\<open>ctx.Err() != nil\<close> (return), and \<^verbatim>\<open>default\<close> (log and return).
  \<^verbatim>\<open>q.Next()\<close> has checked that a row is there, so the empty cursor and the failed
  step before \<^verbatim>\<open>q.Scan\<close> are not reached; they are given the plain return.
\<close>

definition goroutine_step :: "enumeration \<Rightarrow> enumeration option" where
  "goroutine_step e =
     (case pc e of
        Closed \<Rightarrow> None
      | Sending c \<Rightarrow> None
      | AtNext \<Rightarrow>
          (if ctx_done e then Some (e\<lparr>pc := Closed\<rparr>)
           else case cursor e of
             [] \<Rightarrow> Some (e\<lparr>pc := Closed\<rparr>)
           | NextError err # q \<Rightarrow> Some (e\<lparr>cursor := q, pc := Closed\<rparr>)
           | _ \<Rightarrow> Some (e\<lparr>pc := AtScan\<rparr>))
      | AtScan \<Rightarrow>
          (if ctx_done e then Some (e\<lparr>pc := Closed\<rparr>)
           else case cursor e of
             Row mh # q \<Rightarrow>
               (case DecodeString mh of
                  Inl err \<Rightarrow>
                    Some (e\<lparr>cursor := q, pc := AtNext,
                            logged := logged e @
                              [(''failed to parse multihash when querying all keys in sqlite3 blockstore: %s'',
                                Base64Error err)]\<rparr>)
                | Inr mh' \<Rightarrow> Some (e\<lparr>cursor := q, pc := Sending (NewCidV1 Raw mh')\<rparr>))
           | ScanError err # q \<Rightarrow>
               Some (e\<lparr>cursor := q, pc := Closed,
                       logged := logged e @
                         [(''failed when querying all keys in sqlite3 blockstore: %s'', err)]\<rparr>)
           | _ \<Rightarrow> Some (e\<lparr>pc := Closed\<rparr>)))"

text \<open>The consumer receives from \<^verbatim>\<open>ret\<close>: possible when the goroutine is inside the send.\<close>

definition receive :: "enumeration \<Rightarrow> enumeration option" where
  "receive e =
     (case pc e of
        Sending c \<Rightarrow> Some (e\<lparr>pc := AtNext, received := received e @ [c]\<rparr>)
      | _ \<Rightarrow> None)"

text \<open>The caller cancels the context.\<close>

definition cancel :: "enumeration \<Rightarrow> enumeration" where
  "cancel e = e\<lparr>ctx_done := True\<rparr>"

definition AllKeysChan ::
  "bool \<Rightarrow> Blockstore \<Rightarrow> (enumeration option \<times> error option) \<times> Blockstore" where
  "AllKeysChan ctx b =
     (case query_stmtSelectAll ctx b of
        (Inl err, b') \<Rightarrow>
          (if err = ErrNoRows
           then ((Some \<lparr>cursor = [], pc = Closed, received = [], logged = [], ctx_done = ctx\<rparr>,
                  None), b')
           else ((None,
                  Some (Errorf ''failed to query all keys from sqlite3 blockstore: %w'' [] err)),
                 b'))
      | (Inr q, b') \<Rightarrow>
          ((Some \<lparr>cursor = q, pc = AtNext, received = [], logged = [], ctx_done = ctx\<rparr>, None),
           b'))"

text \<open>
  An enumeration run to completion: the goroutine takes its steps, and the consumer
  receives whenever the goroutine is inside the send, until the channel is closed.
\<close>

definition remaining :: "enumeration \<Rightarrow> nat" where
  "remaining e =
     4 * length (cursor e) +
     (case pc e of Closed \<Rightarrow> 0 | AtScan \<Rightarrow> 1 | AtNext \<Rightarrow> 2 | Sending c \<Rightarrow> 3)"

lemma goroutine_step_remaining:
  "goroutine_step e = Some e' \<Longrightarrow> remaining e' < remaining e"
  by (auto simp: goroutine_step_def remaining_def
      split: pc.splits if_splits list.splits scanned.splits sum.splits)

lemma receive_remaining:
  "receive e = Some e' \<Longrightarrow> remaining e' < remaining e"
  by (auto simp: receive_def remaining_def split: pc.splits)

function run_to_completion :: "enumeration \<Rightarrow> enumeration" where
  "run_to_completion e =
     (case goroutine_step e of
        Some e' \<Rightarrow> run_to_completion e'
      | None \<Rightarrow>
          (case receive e of
             Some e' \<Rightarrow> run_to_completion e'
           | None \<Rightarrow> e))"
  by pat_completeness auto
termination
  by (relation "measure remaining")
     (simp_all add: goroutine_step_remaining receive_remaining)

declare run_to_completion.simps [simp del]

subsection \<open>Notions for the statements about the store\<close>

text \<open>The next \<open>n\<close> statements are executed by the engine without a failure.\<close>

definition executes :: "nat \<Rightarrow> Blockstore \<Rightarrow> bool" where
  "executes n b = list_all (\<lambda>r. r = None) (take n (pending b))"

text \<open>\<^verbatim>\<open>Put\<close> applied to each block of a list in order, whatever each call returns.\<close>

fun puts :: "block list \<Rightarrow> Blockstore \<Rightarrow> Blockstore" where
  "puts [] b = b"
| "puts (blk # blks) b = puts blks (snd (Put blk b))"

text \<open>The keys of the stored rows, in the order of a cursor, which is key order.\<close>

definition stored_keys :: "Blockstore \<Rightarrow> string list" where
  "stored_keys b = sort (map fst (DAList.impl_of (rows b)))"

text \<open>
  For a list of keys: the identifiers of the keys that decode, in the default flavor
  \<^verbatim>\<open>cid.NewCidV1(cid.Raw, mh)\<close>, and the log entries of the keys that do not.
\<close>

definition decoded_ids :: "string list \<Rightarrow> cid list" where
  "decoded_ids ks =
     concat (map (\<lambda>k. case DecodeString k of Inl err \<Rightarrow> [] | Inr mh \<Rightarrow> [NewCidV1 Raw mh]) ks)"

definition decode_reports :: "string list \<Rightarrow> (string \<times> error) list" where
  "decode_reports ks =
     concat (map (\<lambda>k. case DecodeString k of
                        Inl err \<Rightarrow>
                          [(''failed to parse multihash when querying all keys in sqlite3 blockstore: %s'',
                            Base64Error err)]
                      | Inr mh \<Rightarrow> []) ks)"

subsection \<open>Concrete identifiers and stores\<close>

text \<open>
  Two identifiers with the identity multihashes (code \<^verbatim>\<open>0x00\<close>, length 1) of the
  payloads \<^verbatim>\<open>[1]\<close> and \<^verbatim>\<open>[2]\<close>, in the codec \<^verbatim>\<open>dag-cbor\<close>, whose keys are \<^verbatim>\<open>AAEB\<close>
  and \<^verbatim>\<open>AAEC\<close>, and the identifier with the identity multihash of the empty payload,
  whose key is \<^verbatim>\<open>AAA\<close>.  The store without rows; a store with one block; a store
  with the same block and a row whose key does not decode; a store with the empty
  block and a row whose key \<^verbatim>\<open>AAB\<close> differs from \<^verbatim>\<open>AAA\<close> in the two low bits of its last
  character, which the decoder does not read.
\<close>

definition c_id :: cid where
  "c_id = \<lparr>Version = 1, Codec = 0x71, Hash = [0x00, 0x01, 0x01]\<rparr>"

definition c_other :: cid where
  "c_other = \<lparr>Version = 1, Codec = 0x71, Hash = [0x00, 0x01, 0x02]\<rparr>"

definition c_empty :: cid where
  "c_empty = \<lparr>Version = 1, Codec = 0x71, Hash = [0x00, 0x00]\<rparr>"

definition no_rows :: Blockstore where
  "no_rows = \<lparr>rows = DAList.empty, pending = []\<rparr>"

definition one_block :: Blockstore where
  "one_block = \<lparr>rows = DAList.update (keyFromCid c_id) [1] DAList.empty, pending = []\<rparr>"

definition one_corrupt_key :: Blockstore where
  "one_corrupt_key =
     \<lparr>rows = DAList.update (keyFromCid c_id) [1] (DAList.update ''Q'' [2] DAList.empty),
        pending = []\<rparr>"

definition two_spellings :: Blockstore where
  "two_spellings =
     \<lparr>rows = DAList.update ''AAB'' [2] (DAList.update (keyFromCid c_empty) [] DAList.empty),
        pending = []\<rparr>"

section \<open>The key codec\<close>

subsection \<open>The decoding table\<close>

lemma length_encodeStd: "length encodeStd = 64"
  by (simp add: encodeStd_def)

lemma distinct_encodeStd: "distinct encodeStd"
  by (simp add: encodeStd_def)

lemma fold_table_miss:
  "c \<notin> set (take n xs) \<Longrightarrow> n \<le> length xs \<Longrightarrow>
   fold (\<lambda>i m. m(xs ! i := f i)) [0..<n] m0 c = m0 c"
  by (induction n) (auto simp: take_Suc_conv_app_nth)

lemma fold_table_hit:
  "distinct xs \<Longrightarrow> i < n \<Longrightarrow> n \<le> length xs \<Longrightarrow>
   fold (\<lambda>i m. m(xs ! i := f i)) [0..<n] m0 (xs ! i) = f i"
proof (induction n)
  case 0
  then show ?case by simp
next
  case (Suc n)
  show ?case
  proof (cases "i = n")
    case True
    then show ?thesis by simp
  next
    case False
    with Suc.prems have "i < n" "xs ! n \<noteq> xs ! i"
      by (auto simp: nth_eq_iff_index_eq)
    with Suc show ?thesis by simp
  qed
qed

lemma decodeMap_encodeStd: "i < 64 \<Longrightarrow> decodeMap (encodeStd ! i) = of_nat i"
  unfolding decodeMap_def
  by (rule fold_table_hit) (simp_all add: distinct_encodeStd length_encodeStd)

lemma decodeMap_outside: "c \<notin> set encodeStd \<Longrightarrow> decodeMap c = 0xFF"
  unfolding decodeMap_def
  by (subst fold_table_miss) simp_all

lemma decodeMap_inside: "c \<in> set encodeStd \<Longrightarrow> decodeMap c \<noteq> 0xFF"
proof -
  assume "c \<in> set encodeStd"
  then obtain i where i: "i < 64" "c = encodeStd ! i"
    by (auto simp: in_set_conv_nth length_encodeStd)
  then have "unat (decodeMap c) = i"
    by (simp add: decodeMap_encodeStd unat_of_nat)
  with i show ?thesis by auto
qed

lemma decodeMap_FF_iff: "decodeMap c = 0xFF \<longleftrightarrow> c \<notin> set encodeStd"
  using decodeMap_outside decodeMap_inside by blast

lemma mask63: "(0x3F :: 64 word) = mask 6"
  by (simp add: mask_eq_exp_minus_1)

lemma unat_sextet: "unat (v AND (0x3F :: 64 word)) < 64"
proof -
  have "take_bit 6 (unat v) < 2 ^ 6"
    by (rule take_bit_nat_less_exp)
  then show ?thesis
    by (simp add: mask63 unsigned_take_bit_eq flip: take_bit_eq_mask)
qed

lemma encode_char_in: "encode_char v \<in> set encodeStd"
  by (simp add: encode_char_def unat_sextet length_encodeStd)

lemma decodeMap_encode_char: "decodeMap (encode_char v) = ucast (v AND 0x3F)"
  by (simp add: encode_char_def decodeMap_encodeStd unat_sextet)

lemma join_sextets4:
  "quantumVal (sextet (drop_bit 18 v)) (sextet (drop_bit 12 v)) (sextet (drop_bit 6 v)) (sextet v)
     = take_bit 24 v"
  unfolding sextet_def mask63 quantumVal_def
  apply (rule bit_word_eqI)
  apply (simp add: bit_simps cong: conj_cong)
  apply auto
  done

lemma join_sextets3:
  "quantumVal (sextet (drop_bit 18 v)) (sextet (drop_bit 12 v)) (sextet (drop_bit 6 v)) 0
     = push_bit 6 (take_bit 18 (drop_bit 6 v))"
  unfolding sextet_def mask63 quantumVal_def
  apply (rule bit_word_eqI)
  apply (simp add: bit_simps cong: conj_cong)
  apply auto
  done

lemma join_sextets2:
  "quantumVal (sextet (drop_bit 18 v)) (sextet (drop_bit 12 v)) 0 0
     = push_bit 12 (take_bit 12 (drop_bit 12 v))"
  unfolding sextet_def mask63 quantumVal_def
  apply (rule bit_word_eqI)
  apply (simp add: bit_simps cong: conj_cong)
  apply auto
  done

lemma quantum4:
  fixes b0 b1 b2 :: byte
  defines "val \<equiv> push_bit 16 (ucast b0) OR push_bit 8 (ucast b1) OR (ucast b2 :: 64 word)"
  shows "quantumBytes [sextet (drop_bit 18 val), sextet (drop_bit 12 val), sextet (drop_bit 6 val), sextet val]
     = [b0, b1, b2]"
proof -
  have "ucast (drop_bit 16 (take_bit 24 val)) = b0"
    unfolding val_def by (rule bit_word_eqI) (auto simp add: bit_simps dest: bit_imp_le_length)
  moreover have "ucast (drop_bit 8 (take_bit 24 val)) = b1"
    unfolding val_def by (rule bit_word_eqI) (auto simp add: bit_simps dest: bit_imp_le_length)
  moreover have "ucast (take_bit 24 val) = b2"
    unfolding val_def by (rule bit_word_eqI) (auto simp add: bit_simps dest: bit_imp_le_length)
  ultimately show ?thesis
    by (simp add: quantumBytes_def join_sextets4)
qed

lemma quantum3:
  fixes b0 b1 :: byte
  defines "val \<equiv> push_bit 16 (ucast b0) OR (push_bit 8 (ucast b1) :: 64 word)"
  shows "quantumBytes [sextet (drop_bit 18 val), sextet (drop_bit 12 val), sextet (drop_bit 6 val)]
     = [b0, b1]"
proof -
  have "ucast (drop_bit 16 (push_bit 6 (take_bit 18 (drop_bit 6 val)))) = b0"
    unfolding val_def by (rule bit_word_eqI) (auto simp add: bit_simps dest: bit_imp_le_length)
  moreover have "ucast (drop_bit 8 (push_bit 6 (take_bit 18 (drop_bit 6 val)))) = b1"
    unfolding val_def by (rule bit_word_eqI) (auto simp add: bit_simps dest: bit_imp_le_length)
  ultimately show ?thesis
    by (simp add: quantumBytes_def join_sextets3)
qed

lemma quantum2:
  fixes b0 :: byte
  defines "val \<equiv> (push_bit 16 (ucast b0) :: 64 word)"
  shows "quantumBytes [sextet (drop_bit 18 val), sextet (drop_bit 12 val)] = [b0]"
proof -
  have "ucast (drop_bit 16 (push_bit 12 (take_bit 12 (drop_bit 12 val)))) = b0"
    unfolding val_def by (rule bit_word_eqI) (auto simp add: bit_simps dest: bit_imp_le_length)
  then show ?thesis
    by (simp add: quantumBytes_def join_sextets2)
qed

lemma decodeMap_encode_char_sextet: "decodeMap (encode_char v) = sextet v"
  by (simp add: decodeMap_encode_char sextet_def)

lemma sextet_valid: "sextet v \<noteq> 0xFF"
  using encode_char_in [of v] decodeMap_inside [of "encode_char v"]
  by (simp add: decodeMap_encode_char_sextet)

lemma decodeQuantum_full:
  "length dbuf = 4 \<Longrightarrow> decodeQuantum dbuf src = Inr (quantumBytes dbuf, src)"
  by (cases src) simp_all

lemma decodeQuantum_4:
  "decodeQuantum [] (encode_char v0 # encode_char v1 # encode_char v2 # encode_char v3 # rest)
     = Inr (quantumBytes [sextet v0, sextet v1, sextet v2, sextet v3], rest)"
  by (simp add: decodeMap_encode_char_sextet sextet_valid decodeQuantum_full)

lemma decodeQuantum_3:
  "decodeQuantum [] [encode_char v0, encode_char v1, encode_char v2]
     = Inr (quantumBytes [sextet v0, sextet v1, sextet v2], [])"
  by (simp add: decodeMap_encode_char_sextet sextet_valid)

lemma decodeQuantum_2:
  "decodeQuantum [] [encode_char v0, encode_char v1]
     = Inr (quantumBytes [sextet v0, sextet v1], [])"
  by (simp add: decodeMap_encode_char_sextet sextet_valid)

lemma DecodeString_Nil: "DecodeString [] = Inr []"
  by (subst DecodeString.simps) simp

lemma DecodeString_Cons:
  "DecodeString (c # cs) =
     (case decodeQuantum [] (c # cs) of
        Inl err \<Rightarrow> Inl err
      | Inr (out, rest) \<Rightarrow>
          (case DecodeString rest of Inl err \<Rightarrow> Inl err | Inr outs \<Rightarrow> Inr (out @ outs)))"
  by (subst DecodeString.simps) simp

lemma DecodeString_EncodeToString: "DecodeString (EncodeToString h) = Inr h"
proof (induction h rule: EncodeToString.induct)
  case (1 b0 b1 b2 src)
  define val :: "64 word" where "val = push_bit 16 (ucast b0) OR push_bit 8 (ucast b1) OR ucast b2"
  have "EncodeToString (b0 # b1 # b2 # src) =
      encode_char (drop_bit 18 val) # encode_char (drop_bit 12 val) #
      encode_char (drop_bit 6 val) # encode_char val # EncodeToString src"
    by (simp only: EncodeToString.simps Let_def val_def)
  moreover have "quantumBytes [sextet (drop_bit 18 val), sextet (drop_bit 12 val),
      sextet (drop_bit 6 val), sextet val] = [b0, b1, b2]"
    unfolding val_def by (rule quantum4)
  ultimately show ?case
    using "1.IH" by (simp only: DecodeString_Cons decodeQuantum_4) simp
next
  case (2 b0 b1)
  define val :: "64 word" where "val = push_bit 16 (ucast b0) OR push_bit 8 (ucast b1)"
  have "EncodeToString [b0, b1] =
      [encode_char (drop_bit 18 val), encode_char (drop_bit 12 val), encode_char (drop_bit 6 val)]"
    by (simp only: EncodeToString.simps Let_def val_def)
  moreover have "quantumBytes [sextet (drop_bit 18 val), sextet (drop_bit 12 val),
      sextet (drop_bit 6 val)] = [b0, b1]"
    unfolding val_def by (rule quantum3)
  ultimately show ?case
    by (simp only: DecodeString_Cons decodeQuantum_3) (simp add: DecodeString_Nil)
next
  case (3 b0)
  define val :: "64 word" where "val = push_bit 16 (ucast b0)"
  have "EncodeToString [b0] = [encode_char (drop_bit 18 val), encode_char (drop_bit 12 val)]"
    by (simp only: EncodeToString.simps Let_def val_def)
  moreover have "quantumBytes [sextet (drop_bit 18 val), sextet (drop_bit 12 val)] = [b0]"
    unfolding val_def by (rule quantum2)
  ultimately show ?case
    by (simp only: DecodeString_Cons decodeQuantum_2) (simp add: DecodeString_Nil)
next
  case 4
  then show ?case by (simp add: DecodeString_Nil)
qed

lemma DecodeString_decode_from:
  "isl (DecodeString src) = isl (decode_from [] src)"
  by (cases src) (simp_all add: decode_from_def DecodeString_Cons DecodeString_Nil)

lemma decode_from_full:
  "length dbuf = 4 \<Longrightarrow> isl (decode_from dbuf src) = isl (DecodeString src)"
  by (simp add: decode_from_def decodeQuantum_full split: sum.splits)

lemma decode_from_Nil:
  "length dbuf \<le> 4 \<Longrightarrow> isl (decode_from dbuf []) = (length dbuf = 1)"
  by (auto simp: decode_from_def DecodeString_Nil)

lemma decode_from_Cons:
  "length dbuf < 4 \<Longrightarrow>
   decode_from dbuf (c # src) =
     (if decodeMap c \<noteq> 0xFF then decode_from (dbuf @ [decodeMap c]) src
      else if is_newline c then decode_from dbuf src
      else Inl CorruptInputError)"
  by (simp add: decode_from_def)

lemma decode_from_fails:
  "length dbuf \<le> 4 \<Longrightarrow>
   isl (decode_from dbuf src) =
     (list_ex corrupt_char src \<or> (length dbuf + sextet_count src) mod 4 = 1)"
proof (induction src arbitrary: dbuf)
  case Nil
  then have "length dbuf = 0 \<or> length dbuf = 1 \<or> length dbuf = 2 \<or> length dbuf = 3 \<or>
      length dbuf = 4"
    by arith
  with Nil show ?case
    by (auto simp: decode_from_Nil sextet_count_def)
next
  case (Cons c src)
  have short: "isl (decode_from d (c # src)) =
     (list_ex corrupt_char (c # src) \<or> (length d + sextet_count (c # src)) mod 4 = 1)"
    if "length d < 4" for d
    using that Cons.IH [of "d @ [decodeMap c]"] Cons.IH [of d]
    by (simp add: decode_from_Cons corrupt_char_def [of c] sextet_count_def)
  show ?case
  proof (cases "length dbuf = 4")
    case True
    then have "isl (decode_from dbuf (c # src)) = isl (decode_from [] (c # src))"
      by (simp add: decode_from_full DecodeString_decode_from)
    also have "\<dots> = (list_ex corrupt_char (c # src) \<or> sextet_count (c # src) mod 4 = 1)"
      using short [of "[]"] by simp
    finally show ?thesis using True by simp
  next
    case False
    with Cons.prems have "length dbuf < 4" by simp
    then show ?thesis by (rule short)
  qed
qed

lemma DecodeString_fails_iff:
  "(DecodeString s = Inl CorruptInputError) =
     (list_ex corrupt_char s \<or> sextet_count s mod 4 = 1)"
proof -
  have "(DecodeString s = Inl CorruptInputError) = isl (DecodeString s)"
    by (cases "DecodeString s") (auto intro: b64_error.exhaust)
  then show ?thesis
    using decode_from_fails [of "[]" s] by (simp add: DecodeString_decode_from)
qed

subsection \<open>The codec as the store uses it\<close>

lemma EncodeToString_inject: "EncodeToString h = EncodeToString h' \<Longrightarrow> h = h'"
proof -
  assume "EncodeToString h = EncodeToString h'"
  then have "DecodeString (EncodeToString h) = DecodeString (EncodeToString h')"
    by simp
  then show "h = h'"
    by (simp add: DecodeString_EncodeToString)
qed

lemma DecodeString_keyFromCid: "DecodeString (keyFromCid c) = Inr (Hash c)"
  by (simp add: keyFromCid_def DecodeString_EncodeToString)

lemma not_encoding:
  "DecodeString s = Inr h \<Longrightarrow> EncodeToString h \<noteq> s \<Longrightarrow> s \<notin> range EncodeToString"
proof
  assume dec: "DecodeString s = Inr h" and ne: "EncodeToString h \<noteq> s"
    and "s \<in> range EncodeToString"
  then obtain h' where "s = EncodeToString h'" by blast
  with dec have "h' = h"
    by (simp add: DecodeString_EncodeToString)
  with \<open>s = EncodeToString h'\<close> ne show False by simp
qed

text \<open>
  C4 (as amended).  For every byte sequence \<open>h\<close>, decoding \<open>EncodeToString h\<close> gives
  back exactly \<open>h\<close>.  Decoding a key string \<open>s\<close> fails with the decode error exactly
  when \<open>s\<close> has a character that is neither one of the 64 alphabet characters nor a
  line break (CR, LF), or when the number of its alphabet characters is 1 modulo 4.
  Every other string is decoded, whether it is an encoding or not.
\<close>

theorem key_codec_inverse_and_failures:
  "DecodeString (EncodeToString h) = Inr h \<and>
   ((DecodeString s = Inl CorruptInputError) =
      (list_ex corrupt_char s \<or> sextet_count s mod 4 = 1))"
proof
  show "DecodeString (EncodeToString h) = Inr h"
    by (rule DecodeString_EncodeToString)
  show "(DecodeString s = Inl CorruptInputError) =
      (list_ex corrupt_char s \<or> sextet_count s mod 4 = 1)"
    by (rule DecodeString_fails_iff)
qed

theorem key_codec_inverse_and_failures_witness:
  "DecodeString (EncodeToString [0x41]) = Inr [0x41] \<and>
   DecodeString ''Q'' = Inl CorruptInputError"
proof -
  have "list_ex corrupt_char ''Q'' \<or> sextet_count ''Q'' mod 4 = 1"
    by code_simp
  then show ?thesis
    using key_codec_inverse_and_failures [of "[0x41]" "''Q''"] by simp
qed

text \<open>
  C4 as stated fails.  \<^verbatim>\<open>AAA\<close> is the encoding of the two bytes \<^verbatim>\<open>00 00\<close>.  The
  strings \<^verbatim>\<open>AAB\<close> and \<^verbatim>\<open>AAA\<close> followed by a line feed are not the encoding of any
  byte sequence, and both are decoded, to the same two bytes: the two unused low bits
  of \<^verbatim>\<open>B\<close> and the line feed are dropped without a decode error.
\<close>

theorem malformed_key_decodes_counterexample:
  "''AAB'' \<notin> range EncodeToString \<and> DecodeString ''AAB'' = Inr [0x00, 0x00] \<and>
   ''AAA'' @ [CHR 0x0A] \<notin> range EncodeToString \<and>
   DecodeString (''AAA'' @ [CHR 0x0A]) = Inr [0x00, 0x00]"
proof -
  have d1: "DecodeString ''AAB'' = Inr [0x00, 0x00]"
    by code_simp
  have d2: "DecodeString (''AAA'' @ [CHR 0x0A]) = Inr [0x00, 0x00]"
    by code_simp
  have e: "EncodeToString [0x00, 0x00] = ''AAA''"
    by code_simp
  have "''AAB'' \<notin> range EncodeToString"
    by (rule not_encoding [OF d1]) (simp only: e, simp)
  moreover have "''AAA'' @ [CHR 0x0A] \<notin> range EncodeToString"
    by (rule not_encoding [OF d2]) (simp only: e, simp)
  ultimately show ?thesis
    using d1 d2 by simp
qed

section \<open>The single-row operations\<close>

subsection \<open>The engine and the operations when a statement executes\<close>

lemma executes_no_rows: "executes n no_rows"
  by (simp add: executes_def no_rows_def)

lemma next_outcome_executes:
  "executes (Suc n) b \<Longrightarrow>
   fst (next_outcome b) = None \<and> rows (snd (next_outcome b)) = rows b \<and>
   executes n (snd (next_outcome b))"
  by (cases "pending b") (simp_all add: executes_def next_outcome_def)

lemma next_outcome_rows: "rows (snd (next_outcome b)) = rows b"
  by (simp add: next_outcome_def split: list.splits)

lemma next_outcome_cases:
  obtains b' where "next_outcome b = (None, b')" "rows b' = rows b"
  | code b' where "next_outcome b = (Some code, b')" "rows b' = rows b"
  by (cases "pending b"; cases "hd (pending b)") (auto simp: next_outcome_def)

lemma Put_executes:
  assumes "executes (Suc n) b"
  shows "fst (Put blk b) = None"
    and "rows (snd (Put blk b)) = insert_or_ignore (keyFromCid (Cid blk)) (RawData blk) (rows b)"
    and "executes n (snd (Put blk b))"
  using next_outcome_executes [OF assms]
  by (auto simp: Put_def exec_stmtPut_def executes_def split: prod.splits option.splits)

lemma Get_executes:
  assumes "executes (Suc n) b"
  shows "fst (Get c b) =
      (case DAList.lookup (rows b) (keyFromCid c) of
         None \<Rightarrow> (None, Some ErrNotFound)
       | Some data \<Rightarrow> (Some \<lparr>Cid = c, RawData = Some data\<rparr>, None))"
    and "rows (snd (Get c b)) = rows b"
    and "executes n (snd (Get c b))"
  using next_outcome_executes [OF assms]
  by (auto simp: Get_def query_stmtGet_def NewBlockWithCid_def split: prod.splits option.splits)

lemma Has_executes:
  assumes "executes (Suc n) b"
  shows "fst (Has c b) = (DAList.lookup (rows b) (keyFromCid c) \<noteq> None, None)"
    and "rows (snd (Has c b)) = rows b"
    and "executes n (snd (Has c b))"
  using next_outcome_executes [OF assms]
  by (auto simp: Has_def query_stmtHas_def split: prod.splits option.splits)

lemma GetSize_executes:
  assumes "executes (Suc n) b"
  shows "fst (GetSize c b) =
      (case DAList.lookup (rows b) (keyFromCid c) of
         None \<Rightarrow> (- 1, Some ErrNotFound)
       | Some data \<Rightarrow> (int (length data), None))"
    and "rows (snd (GetSize c b)) = rows b"
    and "executes n (snd (GetSize c b))"
  using next_outcome_executes [OF assms]
  by (auto simp: GetSize_def query_stmtGetSize_def split: prod.splits option.splits)

lemma DeleteBlock_executes:
  assumes "executes (Suc n) b"
  shows "fst (DeleteBlock c b) = None"
    and "rows (snd (DeleteBlock c b)) = DAList.delete (keyFromCid c) (rows b)"
    and "executes n (snd (DeleteBlock c b))"
  using next_outcome_executes [OF assms]
  by (auto simp: DeleteBlock_def exec_stmtDelete_def executes_def split: prod.splits option.splits)

lemma insert_or_ignore_nil: "insert_or_ignore k None t = t"
  by (simp add: insert_or_ignore_def)


lemma insert_or_ignore_present:
  "DAList.lookup t k = Some d' \<Longrightarrow> insert_or_ignore k data t = t"
  by (simp add: insert_or_ignore_def split: option.splits)

lemma insert_or_ignore_twice:
  "insert_or_ignore k data (insert_or_ignore k data t) = insert_or_ignore k data t"
  by (cases data; cases "DAList.lookup t k")
     (simp_all add: insert_or_ignore_def)

lemma delete_absent: "DAList.lookup t k = None \<Longrightarrow> DAList.delete k t = t"
  by transfer (simp add: AList.delete_notin_dom map_of_eq_None_iff delete_id)

lemma keys_insert_or_ignore:
  "fst ` set (DAList.impl_of (insert_or_ignore k data t)) \<subseteq>
     insert k (fst ` set (DAList.impl_of t))"
  by (auto simp: insert_or_ignore_def DAList.update.rep_eq dom_update split: option.splits)

lemma keys_delete:
  "fst ` set (DAList.impl_of (DAList.delete k t)) \<subseteq> fst ` set (DAList.impl_of t)"
  by (simp add: DAList.delete.rep_eq dom_delete_subset)

text \<open>
  Every key that the operations write is an encoding: a store whose keys all are
  encodings keeps this property under \<^verbatim>\<open>Put\<close> and \<^verbatim>\<open>DeleteBlock\<close>, and the store
  without rows has it.
\<close>

lemma Put_keeps_encoded_keys:
  assumes "set (stored_keys b) \<subseteq> range EncodeToString"
  shows "set (stored_keys (snd (Put blk b))) \<subseteq> range EncodeToString"
proof (cases b rule: next_outcome_cases)
  case (1 b')
  then have "rows (snd (Put blk b)) = insert_or_ignore (keyFromCid (Cid blk)) (RawData blk) (rows b)"
    by (simp add: Put_def exec_stmtPut_def)
  then have "set (stored_keys (snd (Put blk b))) \<subseteq> insert (keyFromCid (Cid blk)) (set (stored_keys b))"
    using keys_insert_or_ignore [of "keyFromCid (Cid blk)" "RawData blk" "rows b"]
    by (simp add: stored_keys_def)
  with assms show ?thesis
    by (auto simp: keyFromCid_def)
next
  case (2 code b')
  then have "rows (snd (Put blk b)) = rows b"
    by (simp add: Put_def exec_stmtPut_def)
  with assms show ?thesis
    by (simp add: stored_keys_def)
qed

lemma DeleteBlock_keeps_encoded_keys:
  assumes "set (stored_keys b) \<subseteq> range EncodeToString"
  shows "set (stored_keys (snd (DeleteBlock c b))) \<subseteq> range EncodeToString"
proof (cases b rule: next_outcome_cases)
  case (1 b')
  then have "rows (snd (DeleteBlock c b)) = DAList.delete (keyFromCid c) (rows b)"
    by (simp add: DeleteBlock_def exec_stmtDelete_def)
  then have "set (stored_keys (snd (DeleteBlock c b))) \<subseteq> set (stored_keys b)"
    using keys_delete [of "keyFromCid c" "rows b"] by (simp add: stored_keys_def)
  with assms show ?thesis by blast
next
  case (2 code b')
  then have "rows (snd (DeleteBlock c b)) = rows b"
    by (simp add: DeleteBlock_def exec_stmtDelete_def)
  with assms show ?thesis
    by (simp add: stored_keys_def)
qed

lemma no_rows_encoded_keys: "set (stored_keys no_rows) \<subseteq> range EncodeToString"
  by (simp add: stored_keys_def no_rows_def DAList.empty.rep_eq)

subsection \<open>Put followed by Get\<close>




subsection \<open>Put twice\<close>

text \<open>
  C2.  If the engine executes the two statements, the second of two calls
  \<^verbatim>\<open>Put(blk)\<close> returns no error and leaves the table as the first call left it.
  Whatever the engine does, a \<^verbatim>\<open>Put\<close> of any block whose key is present leaves the
  table, and so the payload stored under that key, unchanged.
\<close>

theorem Put_idempotent:
  "(executes 2 b \<longrightarrow>
      fst (Put blk (snd (Put blk b))) = None \<and>
      rows (snd (Put blk (snd (Put blk b)))) = rows (snd (Put blk b))) \<and>
   (DAList.lookup (rows b) (keyFromCid (Cid blk')) = Some d \<longrightarrow>
      rows (snd (Put blk' b)) = rows b)"
proof (intro conjI impI)
  assume "executes 2 b"
  then have two: "executes (Suc (Suc 0)) b"
    by (simp add: numeral_2_eq_2)
  note one = Put_executes(3) [OF two, of blk]
  show "fst (Put blk (snd (Put blk b))) = None"
    by (rule Put_executes(1) [OF one])
  show "rows (snd (Put blk (snd (Put blk b)))) = rows (snd (Put blk b))"
    by (simp add: Put_executes(2) [OF one] Put_executes(2) [OF two] insert_or_ignore_twice)
next
  assume present: "DAList.lookup (rows b) (keyFromCid (Cid blk')) = Some d"
  show "rows (snd (Put blk' b)) = rows b"
  proof (cases b rule: next_outcome_cases)
    case (1 b')
    with present show ?thesis
      by (simp add: Put_def exec_stmtPut_def insert_or_ignore_present)
  next
    case (2 code b')
    then show ?thesis
      by (simp add: Put_def exec_stmtPut_def)
  qed
qed

theorem Put_idempotent_witness:
  "executes 2 (snd (Put \<lparr>Cid = c_id, RawData = Some [2]\<rparr> no_rows)) \<and>
   DAList.lookup (rows (snd (Put \<lparr>Cid = c_id, RawData = Some [2]\<rparr> no_rows))) (keyFromCid c_id) = Some [2] \<and>
   fst (Put \<lparr>Cid = c_id, RawData = Some [2]\<rparr>
          (snd (Put \<lparr>Cid = c_id, RawData = Some [2]\<rparr> (snd (Put \<lparr>Cid = c_id, RawData = Some [2]\<rparr> no_rows))))) = None \<and>
   rows (snd (Put \<lparr>Cid = c_id, RawData = Some [1]\<rparr> (snd (Put \<lparr>Cid = c_id, RawData = Some [2]\<rparr> no_rows)))) =
     rows (snd (Put \<lparr>Cid = c_id, RawData = Some [2]\<rparr> no_rows))"
proof -
  let ?b = "snd (Put \<lparr>Cid = c_id, RawData = Some [2]\<rparr> no_rows)"
  have e: "executes 2 ?b"
    by (simp add: Put_def exec_stmtPut_def next_outcome_def no_rows_def executes_def)
  have l: "DAList.lookup (rows ?b) (keyFromCid (Cid \<lparr>Cid = c_id, RawData = Some [1]\<rparr>)) = Some [2]"
    by (simp add: Put_def exec_stmtPut_def next_outcome_def no_rows_def insert_or_ignore_def)
  show ?thesis
    using Put_idempotent [of ?b "\<lparr>Cid = c_id, RawData = Some [2]\<rparr>" "\<lparr>Cid = c_id, RawData = Some [1]\<rparr>" "[2]"] e l
    by simp
qed

subsection \<open>Absent keys\<close>

text \<open>
  C3.  If no row has the key of \<open>c\<close> and the engine executes the statement, then
  \<^verbatim>\<open>Has(c)\<close> returns \<^verbatim>\<open>false\<close> and no error, \<^verbatim>\<open>Get(c)\<close> returns no block and
  \<^verbatim>\<open>ErrNotFound\<close>, and \<^verbatim>\<open>GetSize(c)\<close> returns \<^verbatim>\<open>-1\<close>, which is not a size, and
  \<^verbatim>\<open>ErrNotFound\<close>.  The three return the same on the store that a \<^verbatim>\<open>DeleteBlock(c)\<close>
  has left, if the engine executes the deletion and the statement after it.
\<close>

theorem absent_key_not_found:
  "(DAList.lookup (rows b) (keyFromCid c) = None \<and> executes 1 b \<longrightarrow>
      fst (Has c b) = (False, None) \<and>
      fst (Get c b) = (None, Some ErrNotFound) \<and>
      fst (GetSize c b) = (- 1, Some ErrNotFound)) \<and>
   (executes 2 b \<longrightarrow>
      fst (DeleteBlock c b) = None \<and>
      fst (Has c (snd (DeleteBlock c b))) = (False, None) \<and>
      fst (Get c (snd (DeleteBlock c b))) = (None, Some ErrNotFound) \<and>
      fst (GetSize c (snd (DeleteBlock c b))) = (- 1, Some ErrNotFound))"
proof -
  have absent: "fst (Has c b') = (False, None) \<and>
      fst (Get c b') = (None, Some ErrNotFound) \<and>
      fst (GetSize c b') = (- 1, Some ErrNotFound)"
    if "DAList.lookup (rows b') (keyFromCid c) = None" and "executes (Suc 0) b'" for b'
    using that(1)
    by (simp add: Has_executes(1) [OF that(2)] Get_executes(1) [OF that(2)]
        GetSize_executes(1) [OF that(2)])
  have deleted: "fst (DeleteBlock c b) = None \<and>
      DAList.lookup (rows (snd (DeleteBlock c b))) (keyFromCid c) = None \<and>
      executes (Suc 0) (snd (DeleteBlock c b))"
    if "executes (Suc (Suc 0)) b"
    using DeleteBlock_executes [OF that, of c] by simp
  show ?thesis
    using absent [of b] absent [of "snd (DeleteBlock c b)"] deleted
    by (simp add: numeral_2_eq_2)
qed

theorem absent_key_not_found_witness:
  "fst (Has c_id no_rows) = (False, None) \<and>
   fst (Get c_id no_rows) = (None, Some ErrNotFound) \<and>
   fst (GetSize c_id no_rows) = (- 1, Some ErrNotFound) \<and>
   fst (DeleteBlock c_id one_block) = None \<and>
   fst (Has c_id (snd (DeleteBlock c_id one_block))) = (False, None) \<and>
   fst (Get c_id (snd (DeleteBlock c_id one_block))) = (None, Some ErrNotFound) \<and>
   fst (GetSize c_id (snd (DeleteBlock c_id one_block))) = (- 1, Some ErrNotFound)"
proof -
  have "DAList.lookup (rows no_rows) (keyFromCid c_id) = None"
    by (simp add: no_rows_def)
  moreover have "executes 2 one_block"
    by (simp add: executes_def one_block_def)
  ultimately show ?thesis
    using absent_key_not_found [of no_rows c_id] absent_key_not_found [of one_block c_id]
      executes_no_rows [of 1]
    by simp
qed

subsection \<open>Delete\<close>

lemma lookup_after_delete:
  "executes (Suc n) b \<Longrightarrow> DAList.lookup (rows (snd (DeleteBlock c b))) (keyFromCid c) = None"
  by (simp add: DeleteBlock_executes(2))

text \<open>
  C6.  If no row has the key of \<open>c\<close> and the engine executes the statement,
  \<^verbatim>\<open>DeleteBlock(c)\<close> returns no error and leaves the table as it was.  If the engine
  executes the three statements, then \<^verbatim>\<open>Put(blk)\<close>, \<^verbatim>\<open>DeleteBlock(Cid blk)\<close> and
  \<^verbatim>\<open>Has(Cid blk)\<close> in sequence return no error, and \<^verbatim>\<open>Has\<close> returns \<^verbatim>\<open>false\<close>.
\<close>

theorem DeleteBlock_idempotent:
  "(DAList.lookup (rows b) (keyFromCid c) = None \<and> executes 1 b \<longrightarrow>
      fst (DeleteBlock c b) = None \<and> rows (snd (DeleteBlock c b)) = rows b) \<and>
   (executes 3 b \<longrightarrow>
      fst (Put blk b) = None \<and>
      fst (DeleteBlock (Cid blk) (snd (Put blk b))) = None \<and>
      fst (Has (Cid blk) (snd (DeleteBlock (Cid blk) (snd (Put blk b))))) = (False, None))"
proof (intro conjI impI)
  assume a: "DAList.lookup (rows b) (keyFromCid c) = None \<and> executes 1 b"
  then have one: "executes (Suc 0) b" by simp
  show "fst (DeleteBlock c b) = None"
    by (rule DeleteBlock_executes(1) [OF one])
  show "rows (snd (DeleteBlock c b)) = rows b"
    using a by (simp add: DeleteBlock_executes(2) [OF one] delete_absent)
next
  assume "executes 3 b"
  then have three: "executes (Suc (Suc (Suc 0))) b"
    by (simp add: numeral_3_eq_3)
  note two = Put_executes(3) [OF three, of blk]
  note one = DeleteBlock_executes(3) [OF two, of "Cid blk"]
  show "fst (Put blk b) = None"
    by (rule Put_executes(1) [OF three])
  show "fst (DeleteBlock (Cid blk) (snd (Put blk b))) = None"
    by (rule DeleteBlock_executes(1) [OF two])
  show "fst (Has (Cid blk) (snd (DeleteBlock (Cid blk) (snd (Put blk b))))) = (False, None)"
    by (simp add: Has_executes(1) [OF one] DeleteBlock_executes(2) [OF two])
qed

theorem DeleteBlock_idempotent_witness:
  "fst (DeleteBlock c_id no_rows) = None \<and> rows (snd (DeleteBlock c_id no_rows)) = rows no_rows \<and>
   fst (Put \<lparr>Cid = c_id, RawData = Some [2]\<rparr> no_rows) = None \<and>
   fst (DeleteBlock c_id (snd (Put \<lparr>Cid = c_id, RawData = Some [2]\<rparr> no_rows))) = None \<and>
   fst (Has c_id (snd (DeleteBlock c_id (snd (Put \<lparr>Cid = c_id, RawData = Some [2]\<rparr> no_rows))))) =
     (False, None)"
proof -
  have "DAList.lookup (rows no_rows) (keyFromCid c_id) = None"
    by (simp add: no_rows_def)
  then show ?thesis
    using DeleteBlock_idempotent [of no_rows c_id "\<lparr>Cid = c_id, RawData = Some [2]\<rparr>"]
      executes_no_rows [of 1] executes_no_rows [of 3]
    by simp
qed

subsection \<open>The size returned with an error\<close>

text \<open>
  C10.  Whenever \<^verbatim>\<open>GetSize\<close> returns an error, \<^verbatim>\<open>ErrNotFound\<close> or a wrapped engine
  failure, the size it returns is \<^verbatim>\<open>-1\<close>.
\<close>

theorem GetSize_error_sentinel:
  "snd (fst (GetSize c b)) \<noteq> None \<Longrightarrow> fst (fst (GetSize c b)) = - 1"
proof -
  assume err: "snd (fst (GetSize c b)) \<noteq> None"
  obtain r b' where q: "query_stmtGetSize (keyFromCid c) b = (r, b')"
    by (cases "query_stmtGetSize (keyFromCid c) b") simp
  show ?thesis
  proof (cases r)
    case (Inl e)
    with q show ?thesis
      by (simp add: GetSize_def)
  next
    case (Inr sz)
    with q have "snd (fst (GetSize c b)) = None"
      by (simp add: GetSize_def)
    with err show ?thesis
      by simp
  qed
qed

theorem GetSize_error_sentinel_witness:
  "snd (fst (GetSize c_id no_rows)) \<noteq> None \<and> fst (fst (GetSize c_id no_rows)) = - 1 \<and>
   snd (fst (GetSize c_id (no_rows\<lparr>pending := [Some 5]\<rparr>))) \<noteq> None \<and>
   fst (fst (GetSize c_id (no_rows\<lparr>pending := [Some 5]\<rparr>))) = - 1"
proof -
  have a: "snd (fst (GetSize c_id no_rows)) \<noteq> None"
    by (simp add: GetSize_def query_stmtGetSize_def next_outcome_def no_rows_def)
  have b: "snd (fst (GetSize c_id (no_rows\<lparr>pending := [Some 5]\<rparr>))) \<noteq> None"
    by (simp add: GetSize_def query_stmtGetSize_def next_outcome_def no_rows_def)
  show ?thesis
    using a b GetSize_error_sentinel [OF a] GetSize_error_sentinel [OF b] by simp
qed

subsection \<open>Engine failures\<close>

text \<open>
  When the engine fails, \<^verbatim>\<open>Has\<close>, \<^verbatim>\<open>Get\<close>, \<^verbatim>\<open>GetSize\<close> and \<^verbatim>\<open>Put\<close> wrap the failure
  in a message that names the operation and the identifier.
\<close>

lemma engine_failure_wrapped:
  assumes "pending b = Some code # rest"
  shows "fst (Has c b) =
      (False, Some (Errorf ''failed to check for existence of CID %s in sqlite3 blockstore: %w''
                      [ArgCid c] (SqliteError code)))"
    and "fst (Get c b) =
      (None, Some (Errorf ''failed to get CID %s from sqlite3 blockstore: %w''
                     [ArgCid c] (SqliteError code)))"
    and "fst (GetSize c b) =
      (- 1, Some (Errorf ''failed to get size of CID %s from sqlite3 blockstore: %w''
                    [ArgCid c] (SqliteError code)))"
    and "fst (Put blk b) =
      Some (Errorf ''failed to put block with CID %s into sqlite3 blockstore: %w''
              [ArgCid (Cid blk)] (SqliteError code))"
  using assms
  by (simp_all add: Has_def Get_def GetSize_def Put_def query_stmtHas_def query_stmtGet_def
      query_stmtGetSize_def exec_stmtPut_def next_outcome_def)

text \<open>
  C7.  \<^verbatim>\<open>DeleteBlock\<close> does not do so.  On the store without rows, with an engine
  that fails the next statement with result code 5, \<^verbatim>\<open>DeleteBlock(c_id)\<close> returns the
  bare engine error, where \<^verbatim>\<open>Put\<close> of a block with the same identifier returns the
  error wrapped with the operation and the identifier.
\<close>

theorem DeleteBlock_engine_failure_bare:
  "fst (DeleteBlock c_id (no_rows\<lparr>pending := [Some 5]\<rparr>)) = Some (SqliteError 5) \<and>
   fst (Put \<lparr>Cid = c_id, RawData = Some [2]\<rparr> (no_rows\<lparr>pending := [Some 5]\<rparr>)) =
     Some (Errorf ''failed to put block with CID %s into sqlite3 blockstore: %w''
             [ArgCid c_id] (SqliteError 5))"
  by (simp add: DeleteBlock_def exec_stmtDelete_def Put_def exec_stmtPut_def next_outcome_def
      no_rows_def)

subsection \<open>PutMany\<close>

lemma Put_failure_rows: "fst (Put blk b) = Some err \<Longrightarrow> rows (snd (Put blk b)) = rows b"
  by (cases b rule: next_outcome_cases) (simp_all add: Put_def exec_stmtPut_def)

lemma PutMany_from_fails:
  assumes "i < length blks"
    and "\<forall>j<i. fst (Put (blks ! j) (puts (take j blks) b)) = None"
    and "fst (Put (blks ! i) (puts (take i blks) b)) = Some err"
  shows "PutMany_from k n blks b =
     (Some (Errorf ''failed to put block %d/%d with CID %s into sqlite3 blockstore: %w''
              [ArgInt (int (k + i)), ArgInt (int n), ArgCid (Cid (blks ! i))] err),
      snd (Put (blks ! i) (puts (take i blks) b)))"
  using assms
proof (induction blks arbitrary: i k b)
  case Nil
  then show ?case by simp
next
  case (Cons blk blks)
  show ?case
  proof (cases i)
    case 0
    with Cons.prems(3) show ?thesis
      by (cases "Put blk b") simp
  next
    case (Suc i')
    from Cons.prems(2) Suc have first: "fst (Put blk b) = None"
      by (auto dest: spec [of _ 0])
    have before: "\<forall>j<i'. fst (Put (blks ! j) (puts (take j blks) (snd (Put blk b)))) = None"
    proof (intro allI impI)
      fix j assume "j < i'"
      then have "Suc j < i" using Suc by simp
      with Cons.prems(2) have "fst (Put ((blk # blks) ! Suc j) (puts (take (Suc j) (blk # blks)) b)) = None"
        by blast
      then show "fst (Put (blks ! j) (puts (take j blks) (snd (Put blk b)))) = None"
        by simp
    qed
    have "PutMany_from (Suc k) n blks (snd (Put blk b)) =
       (Some (Errorf ''failed to put block %d/%d with CID %s into sqlite3 blockstore: %w''
                [ArgInt (int (Suc k + i')), ArgInt (int n), ArgCid (Cid (blks ! i'))] err),
        snd (Put (blks ! i') (puts (take i' blks) (snd (Put blk b)))))"
      using Cons.prems(1,3) Suc before by (intro Cons.IH) simp_all
    with first Suc show ?thesis
      by (cases "Put blk b") simp
  qed
qed

lemma PutMany_from_succeeds:
  "\<forall>j<length blks. fst (Put (blks ! j) (puts (take j blks) b)) = None \<Longrightarrow>
   PutMany_from k n blks b = (None, puts blks b)"
proof (induction blks arbitrary: k b)
  case Nil
  then show ?case by simp
next
  case (Cons blk blks)
  from Cons.prems have first: "fst (Put blk b) = None"
    by (auto dest: spec [of _ 0])
  have "\<forall>j<length blks. fst (Put (blks ! j) (puts (take j blks) (snd (Put blk b)))) = None"
  proof (intro allI impI)
    fix j assume "j < length blks"
    then have "Suc j < length (blk # blks)" by simp
    with Cons.prems have "fst (Put ((blk # blks) ! Suc j) (puts (take (Suc j) (blk # blks)) b)) = None"
      by blast
    then show "fst (Put (blks ! j) (puts (take j blks) (snd (Put blk b)))) = None"
      by simp
  qed
  then have "PutMany_from (Suc k) n blks (snd (Put blk b)) = (None, puts blks (snd (Put blk b)))"
    by (rule Cons.IH)
  with first show ?case
    by (cases "Put blk b") simp
qed

text \<open>
  C5.  \<^verbatim>\<open>PutMany\<close> applies \<^verbatim>\<open>Put\<close> to the blocks in input order.  If the puts before
  index \<open>i\<close> return no error and the put at index \<open>i\<close> returns the error \<open>err\<close>,
  then \<^verbatim>\<open>PutMany\<close> returns an error that carries \<open>i\<close>, the number of blocks, the
  identifier of block \<open>i\<close> and \<open>err\<close>; the store is left as the failed put at
  index \<open>i\<close> left it, so no later block is attempted, and its table is the table
  after the puts before \<open>i\<close>, which are not rolled back.  If no put returns an
  error, \<^verbatim>\<open>PutMany\<close> returns no error, after all the puts.
\<close>

theorem PutMany_stops_at_first_failure:
  "(i < length blks \<and>
    (\<forall>j<i. fst (Put (blks ! j) (puts (take j blks) b)) = None) \<and>
    fst (Put (blks ! i) (puts (take i blks) b)) = Some err \<longrightarrow>
      PutMany blks b =
        (Some (Errorf ''failed to put block %d/%d with CID %s into sqlite3 blockstore: %w''
                 [ArgInt (int i), ArgInt (int (length blks)), ArgCid (Cid (blks ! i))] err),
         snd (Put (blks ! i) (puts (take i blks) b))) \<and>
      rows (snd (PutMany blks b)) = rows (puts (take i blks) b)) \<and>
   ((\<forall>j<length blks. fst (Put (blks ! j) (puts (take j blks) b)) = None) \<longrightarrow>
      PutMany blks b = (None, puts blks b))"
proof (intro conjI impI)
  assume a: "i < length blks \<and>
    (\<forall>j<i. fst (Put (blks ! j) (puts (take j blks) b)) = None) \<and>
    fst (Put (blks ! i) (puts (take i blks) b)) = Some err"
  then show r: "PutMany blks b =
        (Some (Errorf ''failed to put block %d/%d with CID %s into sqlite3 blockstore: %w''
                 [ArgInt (int i), ArgInt (int (length blks)), ArgCid (Cid (blks ! i))] err),
         snd (Put (blks ! i) (puts (take i blks) b)))"
    using PutMany_from_fails [of i blks b err 0 "length blks"] by (simp add: PutMany_def)
  from a show "rows (snd (PutMany blks b)) = rows (puts (take i blks) b)"
    by (simp add: r Put_failure_rows)
next
  assume "\<forall>j<length blks. fst (Put (blks ! j) (puts (take j blks) b)) = None"
  then show "PutMany blks b = (None, puts blks b)"
    unfolding PutMany_def by (rule PutMany_from_succeeds)
qed

lemmas eval_ops = Put_def exec_stmtPut_def next_outcome_def no_rows_def insert_or_ignore_def

theorem PutMany_stops_at_first_failure_witness:
  "PutMany [\<lparr>Cid = c_id, RawData = Some [1]\<rparr>, \<lparr>Cid = c_other, RawData = Some [2]\<rparr>, \<lparr>Cid = c_id, RawData = Some [3]\<rparr>]
      (no_rows\<lparr>pending := [None, Some 5, None]\<rparr>) =
     (Some (Errorf ''failed to put block %d/%d with CID %s into sqlite3 blockstore: %w''
              [ArgInt 1, ArgInt 3, ArgCid c_other]
              (Errorf ''failed to put block with CID %s into sqlite3 blockstore: %w''
                 [ArgCid c_other] (SqliteError 5))),
      \<lparr>rows = DAList.update (keyFromCid c_id) [1] DAList.empty, pending = [None]\<rparr>) \<and>
   PutMany [\<lparr>Cid = c_id, RawData = Some [1]\<rparr>] no_rows =
     (None, \<lparr>rows = DAList.update (keyFromCid c_id) [1] DAList.empty, pending = []\<rparr>)"
proof -
  let ?blks = "[\<lparr>Cid = c_id, RawData = Some [1]\<rparr>, \<lparr>Cid = c_other, RawData = Some [2]\<rparr>, \<lparr>Cid = c_id, RawData = Some [3]\<rparr>]"
  let ?b = "no_rows\<lparr>pending := [None, Some 5, None]\<rparr>"
  let ?err = "Errorf ''failed to put block with CID %s into sqlite3 blockstore: %w''
                 [ArgCid c_other] (SqliteError 5)"
  have h1: "1 < length ?blks \<and>
    (\<forall>j<1. fst (Put (?blks ! j) (puts (take j ?blks) ?b)) = None) \<and>
    fst (Put (?blks ! 1) (puts (take 1 ?blks) ?b)) = Some ?err"
    by (simp add: eval_ops)
  have h2: "\<forall>j<length [\<lparr>Cid = c_id, RawData = Some [1]\<rparr>].
      fst (Put ([\<lparr>Cid = c_id, RawData = Some [1::byte]\<rparr>] ! j) (puts (take j [\<lparr>Cid = c_id, RawData = Some [1]\<rparr>]) no_rows)) = None"
    by (simp add: eval_ops)
  show ?thesis
    using PutMany_stops_at_first_failure [of 1 ?blks ?b ?err] h1
      PutMany_stops_at_first_failure [of _ "[\<lparr>Cid = c_id, RawData = Some [1]\<rparr>]" no_rows] h2
    by (simp add: eval_ops)
qed

section \<open>Enumeration of the keys\<close>

subsection \<open>An uncancelled enumeration run to completion\<close>

lemma run_closed: "pc e = Closed \<Longrightarrow> run_to_completion e = e"
  by (subst run_to_completion.simps) (simp add: goroutine_step_def receive_def)

lemma run_rows:
  "run_to_completion
     \<lparr>cursor = map Row ks, pc = AtNext, received = rs, logged = lg, ctx_done = False\<rparr> =
   \<lparr>cursor = [], pc = Closed, received = rs @ decoded_ids ks,
      logged = lg @ decode_reports ks, ctx_done = False\<rparr>"
proof (induction ks arbitrary: rs lg)
  case Nil
  show ?case
    by (subst run_to_completion.simps)
       (simp add: goroutine_step_def run_closed decoded_ids_def decode_reports_def)
next
  case (Cons k ks)
  show ?case
  proof (cases "DecodeString k")
    case (Inl err)
    then show ?thesis
      apply (subst run_to_completion.simps)
      apply (simp add: goroutine_step_def)
      apply (subst run_to_completion.simps)
      apply (simp add: goroutine_step_def Cons.IH decoded_ids_def decode_reports_def)
      done
  next
    case (Inr mh)
    then show ?thesis
      apply (subst run_to_completion.simps)
      apply (simp add: goroutine_step_def)
      apply (subst run_to_completion.simps)
      apply (simp add: goroutine_step_def)
      apply (subst run_to_completion.simps)
      apply (simp add: goroutine_step_def receive_def Cons.IH decoded_ids_def decode_reports_def)
      done
  qed
qed

lemma AllKeysChan_executes:
  "executes 1 b \<Longrightarrow>
   fst (AllKeysChan False b) =
     (Some \<lparr>cursor = map Row (stored_keys b), pc = AtNext, received = [], logged = [],
            ctx_done = False\<rparr>, None)"
  by (cases "pending b")
     (simp_all add: AllKeysChan_def query_stmtSelectAll_def next_outcome_def executes_def
       stored_keys_def)

text \<open>
  When the engine fails the query, \<^verbatim>\<open>AllKeysChan\<close> still returns the channel and no
  error; the enumeration closes the channel without an identifier and without a log
  entry.
\<close>

lemma AllKeysChan_engine_failure:
  assumes "pending b = Some code # rest"
  shows "fst (AllKeysChan False b) =
      (Some \<lparr>cursor = [NextError (SqliteError code)], pc = AtNext, received = [], logged = [],
             ctx_done = False\<rparr>, None)"
    and "run_to_completion
      \<lparr>cursor = [NextError (SqliteError code)], pc = AtNext, received = [], logged = [],
         ctx_done = False\<rparr> =
      \<lparr>cursor = [], pc = Closed, received = [], logged = [], ctx_done = False\<rparr>"
proof -
  show "fst (AllKeysChan False b) =
      (Some \<lparr>cursor = [NextError (SqliteError code)], pc = AtNext, received = [], logged = [],
             ctx_done = False\<rparr>, None)"
    using assms by (simp add: AllKeysChan_def query_stmtSelectAll_def next_outcome_def)
  show "run_to_completion
      \<lparr>cursor = [NextError (SqliteError code)], pc = AtNext, received = [], logged = [],
         ctx_done = False\<rparr> =
      \<lparr>cursor = [], pc = Closed, received = [], logged = [], ctx_done = False\<rparr>"
    by (subst run_to_completion.simps) (simp add: goroutine_step_def run_closed)
qed

lemma decoded_ids_flavor: "list_all (\<lambda>c. Version c = 1 \<and> Codec c = Raw) (decoded_ids ks)"
  by (induction ks) (simp_all add: decoded_ids_def NewCidV1_def split: sum.splits)

lemma length_decoded_reports:
  "length (decoded_ids ks) + length (decode_reports ks) = length ks"
  by (induction ks) (simp_all add: decoded_ids_def decode_reports_def split: sum.splits)

lemma encoded_keys_decoded:
  "set ks \<subseteq> range EncodeToString \<Longrightarrow>
   map keyFromCid (decoded_ids ks) = ks \<and> decode_reports ks = []"
proof (induction ks)
  case Nil
  then show ?case by (simp add: decoded_ids_def decode_reports_def)
next
  case (Cons k ks)
  then obtain h where "k = EncodeToString h" by auto
  then have "DecodeString k = Inr h"
    by (simp add: DecodeString_EncodeToString)
  with Cons \<open>k = EncodeToString h\<close> show ?case
    by (simp add: decoded_ids_def decode_reports_def keyFromCid_def NewCidV1_def)
qed

lemma distinct_stored_keys: "distinct (stored_keys b)"
  by (simp add: stored_keys_def)

text \<open>
  C8 (as amended).  For every store state, if the engine executes the query, an
  uncancelled \<^verbatim>\<open>AllKeysChan\<close> run to completion closes the channel after it has
  yielded, in cursor order, one identifier \<^verbatim>\<open>NewCidV1(Raw, mh)\<close> for each stored row
  whose key decodes, to \<open>mh\<close>, and has logged and skipped each row whose key fails to
  decode, going on with the rows after it; every stored row is yielded or logged.
  When every stored key is an encoding, as the keys written by \<^verbatim>\<open>Put\<close> are, the
  identifiers yielded, turned back into keys, are the stored keys, no identifier is
  yielded twice, and nothing is logged.
\<close>

theorem AllKeysChan_yields_decodable_keys:
  assumes "executes 1 b"
  shows "case fst (AllKeysChan False b) of
           (Some e, None) \<Rightarrow>
             pc (run_to_completion e) = Closed \<and>
             received (run_to_completion e) = decoded_ids (stored_keys b) \<and>
             logged (run_to_completion e) = decode_reports (stored_keys b) \<and>
             length (received (run_to_completion e)) + length (logged (run_to_completion e)) =
               length (stored_keys b) \<and>
             list_all (\<lambda>c. Version c = 1 \<and> Codec c = Raw) (received (run_to_completion e)) \<and>
             (set (stored_keys b) \<subseteq> range EncodeToString \<longrightarrow>
                map keyFromCid (received (run_to_completion e)) = stored_keys b \<and>
                distinct (received (run_to_completion e)) \<and>
                logged (run_to_completion e) = [])
         | _ \<Rightarrow> False"
proof -
  have "distinct (decoded_ids (stored_keys b))"
    if "set (stored_keys b) \<subseteq> range EncodeToString"
  proof -
    have "distinct (map keyFromCid (decoded_ids (stored_keys b)))"
      using encoded_keys_decoded [OF that] distinct_stored_keys [of b] by simp
    then show ?thesis
      by (simp add: distinct_map)
  qed
  then show ?thesis
    using encoded_keys_decoded [of "stored_keys b"]
    by (simp add: AllKeysChan_executes [OF assms] run_rows decoded_ids_flavor
        length_decoded_reports)
qed

lemma stored_keys_one_corrupt_key: "stored_keys one_corrupt_key = [keyFromCid c_id, ''Q'']"
proof -
  have key: "keyFromCid c_id = ''AAEB''"
    unfolding keyFromCid_def c_id_def by code_simp
  show ?thesis
    by (simp add: stored_keys_def one_corrupt_key_def DAList.update.rep_eq DAList.empty.rep_eq
        key)
qed

lemma stored_keys_one_block: "stored_keys one_block = [keyFromCid c_id]"
  by (simp add: stored_keys_def one_block_def DAList.update.rep_eq DAList.empty.rep_eq)

theorem AllKeysChan_yields_decodable_keys_witness:
  "(case fst (AllKeysChan False one_corrupt_key) of
      (Some e, None) \<Rightarrow>
        pc (run_to_completion e) = Closed \<and>
        received (run_to_completion e) = [NewCidV1 Raw (Hash c_id)] \<and>
        logged (run_to_completion e) =
          [(''failed to parse multihash when querying all keys in sqlite3 blockstore: %s'',
            Base64Error CorruptInputError)]
    | _ \<Rightarrow> False) \<and>
   set (stored_keys one_block) \<subseteq> range EncodeToString \<and>
   (case fst (AllKeysChan False one_block) of
      (Some e, None) \<Rightarrow>
        pc (run_to_completion e) = Closed \<and>
        map keyFromCid (received (run_to_completion e)) = stored_keys one_block \<and>
        distinct (received (run_to_completion e)) \<and>
        logged (run_to_completion e) = []
    | _ \<Rightarrow> False)"
proof -
  have e1: "executes 1 one_corrupt_key"
    by (simp add: executes_def one_corrupt_key_def)
  have e2: "executes 1 one_block"
    by (simp add: executes_def one_block_def)
  have q: "DecodeString ''Q'' = Inl CorruptInputError"
    by code_simp
  have enc: "set (stored_keys one_block) \<subseteq> range EncodeToString"
    by (simp add: stored_keys_one_block keyFromCid_def)
  have "case fst (AllKeysChan False one_corrupt_key) of
      (Some e, None) \<Rightarrow>
        pc (run_to_completion e) = Closed \<and>
        received (run_to_completion e) = [NewCidV1 Raw (Hash c_id)] \<and>
        logged (run_to_completion e) =
          [(''failed to parse multihash when querying all keys in sqlite3 blockstore: %s'',
            Base64Error CorruptInputError)]
    | _ \<Rightarrow> False"
    using AllKeysChan_yields_decodable_keys [OF e1]
    by (simp add: stored_keys_one_corrupt_key decoded_ids_def decode_reports_def q
        DecodeString_keyFromCid split: prod.splits option.splits)
  moreover have "case fst (AllKeysChan False one_block) of
      (Some e, None) \<Rightarrow>
        pc (run_to_completion e) = Closed \<and>
        map keyFromCid (received (run_to_completion e)) = stored_keys one_block \<and>
        distinct (received (run_to_completion e)) \<and>
        logged (run_to_completion e) = []
    | _ \<Rightarrow> False"
    using AllKeysChan_yields_decodable_keys [OF e2] enc
    by (auto split: prod.splits option.splits)
  ultimately show ?thesis
    using enc by simp
qed

text \<open>
  C8 as stated fails.  The store holds the empty block under the identifier
  \<open>c_empty\<close>, whose key is \<^verbatim>\<open>AAA\<close>, and a second row with the key \<^verbatim>\<open>AAB\<close>.  Both keys
  decode, to the same multihash, so no row is skipped and the enumeration of the two
  rows yields the same identifier twice.
\<close>

theorem AllKeysChan_duplicates_counterexample:
  "stored_keys two_spellings = [''AAA'', ''AAB''] \<and>
   (case fst (AllKeysChan False two_spellings) of
      (Some e, None) \<Rightarrow>
        received (run_to_completion e) =
          [NewCidV1 Raw [0x00, 0x00], NewCidV1 Raw [0x00, 0x00]] \<and>
        logged (run_to_completion e) = []
    | _ \<Rightarrow> False)"
proof -
  have key: "keyFromCid c_empty = ''AAA''"
    unfolding keyFromCid_def c_empty_def by code_simp
  have k: "stored_keys two_spellings = [''AAA'', ''AAB'']"
    by (simp add: stored_keys_def two_spellings_def key DAList.update.rep_eq
        DAList.empty.rep_eq)
  have e: "executes 1 two_spellings"
    by (simp add: executes_def two_spellings_def)
  have q: "DecodeString ''AAA'' = Inr [0x00, 0x00]" "DecodeString ''AAB'' = Inr [0x00, 0x00]"
    by code_simp+
  show ?thesis
    using run_rows [of "[''AAA'', ''AAB'']" "[]" "[]"]
    by (simp add: k AllKeysChan_executes [OF e] decoded_ids_def decode_reports_def q)
qed

subsection \<open>Cancellation\<close>

text \<open>
  A goroutine inside the send is still inside the send after the context is
  cancelled, and has no step of its own; a receive by the consumer moves it on.
\<close>

lemma blocked_send_ignores_cancel:
  "pc e = Sending c \<Longrightarrow>
   goroutine_step (cancel e) = None \<and> pc (cancel e) = Sending c \<and>
   receive (cancel e) = Some (e\<lparr>pc := AtNext, received := received e @ [c], ctx_done := True\<rparr>)"
  by (simp add: goroutine_step_def cancel_def receive_def)

text \<open>
  With a consumer that goes on receiving, an enumeration whose context is cancelled
  is closed after at most one more identifier and logs nothing more.
\<close>

lemma cancelled_run_closes:
  assumes "ctx_done e"
  shows "pc (run_to_completion e) = Closed \<and>
         length (received (run_to_completion e)) \<le> Suc (length (received e)) \<and>
         logged (run_to_completion e) = logged e"
proof -
  have next_closed: "run_to_completion e' = e'\<lparr>pc := Closed\<rparr>"
    if "ctx_done e'" "pc e' = AtNext \<or> pc e' = AtScan" for e'
    using that
    by (subst run_to_completion.simps) (auto simp: goroutine_step_def run_closed)
  show ?thesis
  proof (cases "pc e")
    case AtNext
    with assms show ?thesis by (simp add: next_closed)
  next
    case AtScan
    with assms show ?thesis by (simp add: next_closed)
  next
    case (Sending c)
    then have "run_to_completion e = run_to_completion (e\<lparr>pc := AtNext, received := received e @ [c]\<rparr>)"
      by (subst run_to_completion.simps) (simp add: goroutine_step_def receive_def)
    with assms show ?thesis by (simp add: next_closed)
  next
    case Closed
    then show ?thesis by (simp add: run_closed)
  qed
qed

text \<open>
  C9.  The goroutine does not unblock on cancellation.  On the store with one block,
  the goroutine reads the row and stands inside \<^verbatim>\<open>ret <- c\<close>.  The caller cancels the
  context: the goroutine is still inside the send and has no step of its own.  It
  stays there, with the channel open, until the consumer receives.
\<close>

theorem send_blocks_after_cancel:
  "fst (AllKeysChan False one_block) =
     (Some \<lparr>cursor = [Row (keyFromCid c_id)], pc = AtNext, received = [], logged = [],
            ctx_done = False\<rparr>, None) \<and>
   goroutine_step
     \<lparr>cursor = [Row (keyFromCid c_id)], pc = AtNext, received = [], logged = [], ctx_done = False\<rparr> =
     Some \<lparr>cursor = [Row (keyFromCid c_id)], pc = AtScan, received = [], logged = [],
           ctx_done = False\<rparr> \<and>
   goroutine_step
     \<lparr>cursor = [Row (keyFromCid c_id)], pc = AtScan, received = [], logged = [], ctx_done = False\<rparr> =
     Some \<lparr>cursor = [], pc = Sending (NewCidV1 Raw (Hash c_id)), received = [], logged = [],
           ctx_done = False\<rparr> \<and>
   cancel \<lparr>cursor = [], pc = Sending (NewCidV1 Raw (Hash c_id)), received = [], logged = [],
           ctx_done = False\<rparr> =
     \<lparr>cursor = [], pc = Sending (NewCidV1 Raw (Hash c_id)), received = [], logged = [],
        ctx_done = True\<rparr> \<and>
   goroutine_step
     \<lparr>cursor = [], pc = Sending (NewCidV1 Raw (Hash c_id)), received = [], logged = [],
        ctx_done = True\<rparr> = None"
  by (simp add: AllKeysChan_def query_stmtSelectAll_def next_outcome_def one_block_def
      DAList.update.rep_eq DAList.empty.rep_eq goroutine_step_def cancel_def
      DecodeString_keyFromCid)

end
